theory Spec2Isabelle
  imports Main
begin

section \<open>Python values used by \<open>main.py\<close>\<close>

text \<open>
  A Python \<open>str\<close> is represented by its UTF-8 bytes, a HOL \<open>string\<close>: equality,
  concatenation, \<open>rstrip\<close> of an ASCII character and \<open>.encode()\<close> (the identity on
  this representation) are the same on both sides, and a \<open>str\<close> is ASCII-only exactly
  when every byte is below 128.

  A \<open>datetime\<close> is represented by \<open>int(dt.timestamp())\<close>, its whole unix seconds; the
  sub-second part, which the token scheme drops, is not modelled.
\<close>

type_synonym datetime = int

text \<open>
  The exceptions that can leave the functions of \<open>main.py\<close>:
  \<open>HTTPException(status_code, detail)\<close>, raised by the code itself, and the
  \<open>TypeError\<close> that \<open>hmac.compare_digest\<close> raises.
\<close>

datatype error = HTTPException nat string | TypeError

subsection \<open>\<open>str(n)\<close> for an \<open>int\<close>, as the f-string formats the window index\<close>

definition digit_char :: "nat \<Rightarrow> char" where
  "digit_char d = char_of (48 + d)"

function str_nat :: "nat \<Rightarrow> string" where
  "str_nat n = (if n < 10 then [digit_char n] else str_nat (n div 10) @ [digit_char (n mod 10)])"
  by pat_completeness auto
termination
  by (relation "measure (\<lambda>n. n)") auto

declare str_nat.simps [simp del]

definition str_int :: "int \<Rightarrow> string" where
  "str_int i = (if i < 0 then CHR ''-'' # str_nat (nat (- i)) else str_nat (nat i))"

subsection \<open>\<open>base64.urlsafe_b64encode\<close> and \<open>str.rstrip\<close>\<close>

definition b64_alphabet :: string where
  "b64_alphabet = ''ABCDEFGHIJKLMNOPQRSTUVWXYZabcdefghijklmnopqrstuvwxyz0123456789-_''"

definition b64_char :: "nat \<Rightarrow> char" where
  "b64_char n = b64_alphabet ! n"

text \<open>
  Three bytes become four characters of the URL-safe alphabet; a last group of one or
  two bytes is padded with \<open>=\<close> to four characters.
\<close>

fun urlsafe_b64encode :: "string \<Rightarrow> string" where
  "urlsafe_b64encode [] = []"
| "urlsafe_b64encode [a] =
     [b64_char (of_char a div 4), b64_char ((of_char a mod 4) * 16), CHR ''='', CHR ''='']"
| "urlsafe_b64encode [a, b] =
     [b64_char (of_char a div 4),
      b64_char ((of_char a mod 4) * 16 + of_char b div 16),
      b64_char ((of_char b mod 16) * 4), CHR ''='']"
| "urlsafe_b64encode (a # b # c # rest) =
     [b64_char (of_char a div 4),
      b64_char ((of_char a mod 4) * 16 + of_char b div 16),
      b64_char ((of_char b mod 16) * 4 + of_char c div 64),
      b64_char (of_char c mod 64)] @ urlsafe_b64encode rest"

text \<open>\<open>s.rstrip(chars)\<close>: drop the longest suffix made of characters of \<open>chars\<close>.\<close>

definition rstrip :: "string \<Rightarrow> string \<Rightarrow> string" where
  "rstrip s chars = rev (dropWhile (\<lambda>c. c \<in> set chars) (rev s))"

subsection \<open>\<open>hmac.compare_digest\<close>\<close>

definition is_ascii :: "string \<Rightarrow> bool" where
  "is_ascii s = list_all (\<lambda>c. \<not> digit7 c) s"

text \<open>
  On two \<open>str\<close> arguments \<open>hmac.compare_digest\<close> compares them when both are
  ASCII-only, and raises \<open>TypeError\<close> when one of them is not.
\<close>

definition compare_digest :: "string \<Rightarrow> string \<Rightarrow> error + bool" where
  "compare_digest a b = (if is_ascii a \<and> is_ascii b then Inr (a = b) else Inl TypeError)"

section \<open>Token generation and verification\<close>

text \<open>
  \<open>hmac.new(key, msg, hashlib.sha256).digest()\<close> is a function of the Python library:
  it is the parameter \<open>hmac_sha256\<close> (key, then message) of the functions below.
  \<open>SECRET\<close> is read from the environment when the module is loaded and is a parameter
  as well. The reading of the system clock, \<open>datetime.now(timezone.utc)\<close>, is the
  parameter \<open>clock\<close>.
\<close>

definition TOKEN_WINDOW_SECONDS :: int where
  "TOKEN_WINDOW_SECONDS = 10"

definition generate_token ::
  "(string \<Rightarrow> string \<Rightarrow> string) \<Rightarrow> string \<Rightarrow> string \<Rightarrow> string \<Rightarrow> datetime option \<Rightarrow> datetime
    \<Rightarrow> error + string" where
  "generate_token hmac_sha256 SECRET member_id action now clock =
     (if action \<noteq> ''IN'' \<and> action \<noteq> ''OUT'' then Inl (HTTPException 400 ''Invalid action'')
      else
        let now' = (case now of Some n \<Rightarrow> n | None \<Rightarrow> clock);
            ts = now' div TOKEN_WINDOW_SECONDS;
            msg = member_id @ '':'' @ action @ '':'' @ str_int ts;
            sig = hmac_sha256 SECRET msg;
            token = rstrip (urlsafe_b64encode sig) ''=''
        in Inr token)"

text \<open>
  The loop of \<open>verify_token\<close> over the tuple \<open>(current_slice, current_slice - 1)\<close>:
  the first match returns \<open>True\<close>, an exception of \<open>compare_digest\<close> leaves the
  function, and the end of the tuple returns \<open>False\<close>.
\<close>

fun verify_loop ::
  "(string \<Rightarrow> string \<Rightarrow> string) \<Rightarrow> string \<Rightarrow> string \<Rightarrow> string \<Rightarrow> string \<Rightarrow> int list
    \<Rightarrow> error + bool" where
  "verify_loop hmac_sha256 SECRET member_id action token [] = Inr False"
| "verify_loop hmac_sha256 SECRET member_id action token (ts # rest) =
     (let msg = member_id @ '':'' @ action @ '':'' @ str_int ts;
          sig = hmac_sha256 SECRET msg;
          expected = rstrip (urlsafe_b64encode sig) ''=''
      in case compare_digest expected token of
           Inl e \<Rightarrow> Inl e
         | Inr True \<Rightarrow> Inr True
         | Inr False \<Rightarrow> verify_loop hmac_sha256 SECRET member_id action token rest)"

definition verify_token ::
  "(string \<Rightarrow> string \<Rightarrow> string) \<Rightarrow> string \<Rightarrow> string \<Rightarrow> string \<Rightarrow> string \<Rightarrow> datetime
    \<Rightarrow> error + bool" where
  "verify_token hmac_sha256 SECRET member_id action token clock =
     (let now = clock;
          current_slice = now div TOKEN_WINDOW_SECONDS
      in verify_loop hmac_sha256 SECRET member_id action token
           [current_slice, current_slice - 1])"

text \<open>
  The candidate that both functions compute for a window index: the MAC of
  \<open>member_id:action:ts\<close>, URL-safe base64, padding stripped. It names, in the
  statements below, the three lines that \<open>generate_token\<close> and \<open>verify_token\<close> share.
\<close>

definition candidate ::
  "(string \<Rightarrow> string \<Rightarrow> string) \<Rightarrow> string \<Rightarrow> string \<Rightarrow> string \<Rightarrow> int \<Rightarrow> string" where
  "candidate hmac_sha256 SECRET member_id action ts =
     rstrip (urlsafe_b64encode (hmac_sha256 SECRET (member_id @ '':'' @ action @ '':'' @ str_int ts))) ''=''"

section \<open>The store\<close>

text \<open>
  \<open>db\<close> is imported from \<open>database.py\<close>: a pymongo database, or \<open>None\<close> when
  the connection is not configured. The code uses two collections: \<open>db["member"]\<close>,
  documents keyed by their \<open>_id\<close> (an \<open>ObjectId\<close>), and \<open>db["attendance"]\<close>, to
  which \<open>insert_one\<close> appends. The \<open>_id\<close> that \<open>insert_one\<close> gives an attendance
  document is not modelled: the code only converts it to a string in the response.
\<close>

record member =
  name :: string
  present :: bool
  last_in :: "datetime option"
  last_out :: "datetime option"
  created_at :: datetime
  updated_at :: datetime

record attendance =
  att_member_id :: string
  att_action :: string
  att_timestamp :: datetime
  att_created_at :: datetime
  att_updated_at :: datetime

text \<open>
  \<open>ObjectId(id_str)\<close> of \<open>bson\<close> accepts a string of 24 hexadecimal digits (in
  either case) and raises \<open>InvalidId\<close> on any other; its value is the twelve bytes,
  kept here as the 24 digit values.
\<close>

type_synonym objectid = "nat list"

definition hex_digit :: "char \<Rightarrow> nat option" where
  "hex_digit c =
     (let n = (of_char c :: nat) in
      if 48 \<le> n \<and> n \<le> 57 then Some (n - 48)
      else if 97 \<le> n \<and> n \<le> 102 then Some (n - 87)
      else if 65 \<le> n \<and> n \<le> 70 then Some (n - 55)
      else None)"

definition ObjectId :: "string \<Rightarrow> objectid option" where
  "ObjectId id_str = (if length id_str = 24 then those (map hex_digit id_str) else None)"

definition oid :: "string \<Rightarrow> error + objectid" where
  "oid id_str =
     (case ObjectId id_str of
        Some i \<Rightarrow> Inr i
      | None \<Rightarrow> Inl (HTTPException 400 ''Invalid member id''))"

record database =
  members :: "objectid \<rightharpoonup> member"
  attendances :: "attendance list"

text \<open>
  \<open>update_one({"_id": i}, {"$set": upd})\<close> without \<open>upsert\<close>: the document with that
  \<open>_id\<close> gets the fields of \<open>upd\<close>; when there is none, nothing changes and nothing is
  raised.
\<close>

definition update_one ::
  "(objectid \<rightharpoonup> member) \<Rightarrow> objectid \<Rightarrow> (member \<Rightarrow> member) \<Rightarrow> (objectid \<rightharpoonup> member)" where
  "update_one coll i upd = (case coll i of None \<Rightarrow> coll | Some m \<Rightarrow> coll(i \<mapsto> upd m))"



section \<open>The endpoints\<close>

text \<open>
  Every endpoint takes the store and returns its result, or the exception that leaves
  it, together with the store it leaves behind.

  \<open>get_member_qrs\<close>: the response is the \<open>IN\<close> token, the \<open>OUT\<close> token and
  \<open>window_seconds\<close>.
\<close>

definition get_member_qrs ::
  "(string \<Rightarrow> string \<Rightarrow> string) \<Rightarrow> string \<Rightarrow> database option \<Rightarrow> string \<Rightarrow> datetime
    \<Rightarrow> (error + string \<times> string \<times> int) \<times> database option" where
  "get_member_qrs hmac_sha256 SECRET db member_id clock =
     (case db of
        None \<Rightarrow> (Inl (HTTPException 500 ''Database not configured''), db)
      | Some d \<Rightarrow>
          (case oid member_id of
             Inl e \<Rightarrow> (Inl e, db)
           | Inr i \<Rightarrow>
               (case members d i of
                  None \<Rightarrow> (Inl (HTTPException 404 ''Member not found''), db)
                | Some m \<Rightarrow>
                    (case generate_token hmac_sha256 SECRET member_id ''IN'' None clock of
                       Inl e \<Rightarrow> (Inl e, db)
                     | Inr tin \<Rightarrow>
                         (case generate_token hmac_sha256 SECRET member_id ''OUT'' None clock of
                            Inl e \<Rightarrow> (Inl e, db)
                          | Inr tout \<Rightarrow> (Inr (tin, tout, TOKEN_WINDOW_SECONDS), db))))))"

text \<open>
  \<open>scan2\<close> reads the clock twice: \<open>clock\<close> is the reading inside \<open>verify_token\<close>,
  \<open>clock'\<close> the reading that stamps the attendance document and the member. The
  response \<open>{"status": "ok"}\<close> is the string \<open>ok\<close>.
\<close>

definition scan2 ::
  "(string \<Rightarrow> string \<Rightarrow> string) \<Rightarrow> string \<Rightarrow> database option \<Rightarrow> string \<Rightarrow> string \<Rightarrow> string
    \<Rightarrow> datetime \<Rightarrow> datetime \<Rightarrow> (error + string) \<times> database option" where
  "scan2 hmac_sha256 SECRET db member_id action token clock clock' =
     (case db of
        None \<Rightarrow> (Inl (HTTPException 500 ''Database not configured''), db)
      | Some d \<Rightarrow>
          if action \<noteq> ''IN'' \<and> action \<noteq> ''OUT''
          then (Inl (HTTPException 400 ''Invalid action''), db)
          else
            (case verify_token hmac_sha256 SECRET member_id action token clock of
               Inl e \<Rightarrow> (Inl e, db)
             | Inr False \<Rightarrow> (Inl (HTTPException 401 ''Invalid or expired token''), db)
             | Inr True \<Rightarrow>
                 (let now = clock';
                      att = \<lparr>att_member_id = member_id, att_action = action,
                             att_timestamp = now, att_created_at = now, att_updated_at = now\<rparr>;
                      d1 = d\<lparr>attendances := attendances d @ [att]\<rparr>;
                      upd = (if action = ''IN''
                             then (\<lambda>m. m\<lparr>updated_at := now, present := True, last_in := Some now\<rparr>)
                             else (\<lambda>m. m\<lparr>updated_at := now, present := False, last_out := Some now\<rparr>))
                  in case oid member_id of
                       Inl e \<Rightarrow> (Inl e, Some d1)
                     | Inr i \<Rightarrow>
                         (Inr ''ok'', Some (d1\<lparr>members := update_one (members d1) i upd\<rparr>)))))"


section \<open>Auxiliary definitions of the proofs\<close>


text \<open>The base64 encoding without its padding.\<close>

fun b64_body :: "string \<Rightarrow> string" where
  "b64_body [] = []"
| "b64_body [a] =
     [b64_char (of_char a div 4), b64_char ((of_char a mod 4) * 16)]"
| "b64_body [a, b] =
     [b64_char (of_char a div 4),
      b64_char ((of_char a mod 4) * 16 + of_char b div 16),
      b64_char ((of_char b mod 16) * 4)]"
| "b64_body (a # b # c # rest) =
     [b64_char (of_char a div 4),
      b64_char ((of_char a mod 4) * 16 + of_char b div 16),
      b64_char ((of_char b mod 16) * 4 + of_char c div 64),
      b64_char (of_char c mod 64)] @ b64_body rest"

text \<open>
  An injective keyed function: a concrete value for the parameter \<open>hmac_sha256\<close>
  where a statement is instantiated.
\<close>

fun keyed_concat :: "string \<Rightarrow> string \<Rightarrow> string" where
  "keyed_concat [] m = CHR ''0'' # m"
| "keyed_concat (c # k) m = CHR ''1'' # c # keyed_concat k m"

section \<open>Decimal strings\<close>











section \<open>Base64\<close>

lemma length_b64_alphabet: "length b64_alphabet = 64"
  by (simp add: b64_alphabet_def)


lemma b64_alphabet_chars: "c \<in> set b64_alphabet \<Longrightarrow> c \<noteq> CHR ''='' \<and> \<not> digit7 c"
  by (auto simp add: b64_alphabet_def)

lemma b64_char_mem: "n < 64 \<Longrightarrow> b64_char n \<in> set b64_alphabet"
  by (simp add: b64_char_def length_b64_alphabet)


lemma of_char_lt_256: "(of_char c :: nat) < 256"
proof -
  have "(of_char c :: nat) = of_char c mod 256" by (simp only: of_char_mod_256)
  also have "\<dots> < 256" by simp
  finally show ?thesis .
qed





lemma sextet_bounds:
  fixes x y :: nat
  assumes "x < 256" "y < 256"
  shows "x div 4 < 64" "(x mod 4) * 16 + y div 16 < 64" "(x mod 16) * 4 + y div 64 < 64"
    "x mod 64 < 64" "(x mod 4) * 16 < 64" "(x mod 16) * 4 < 64"
proof -
  show "x div 4 < 64" using assms(1) by simp
  have a: "x mod 4 < 4" "x mod 16 < 16" by simp_all
  have b: "y div 16 < 16" "y div 64 < 4" using assms(2) by simp_all
  show "(x mod 4) * 16 + y div 16 < 64" using a(1) b(1) by linarith
  show "(x mod 16) * 4 + y div 64 < 64" using a(2) b(2) by linarith
  show "x mod 64 < 64" by simp
  show "(x mod 4) * 16 < 64" using a(1) by linarith
  show "(x mod 16) * 4 < 64" using a(2) by linarith
qed





lemma b64_body_chars: "c \<in> set (b64_body xs) \<Longrightarrow> c \<in> set b64_alphabet"
proof (induction xs rule: b64_body.induct)
  case (4 a b c' rest)
  note bd = of_char_lt_256
  from 4 show ?case
    using b64_char_mem[OF sextet_bounds(1)[OF bd bd]] b64_char_mem[OF sextet_bounds(2)[OF bd bd]]
      b64_char_mem[OF sextet_bounds(3)[OF bd bd]] b64_char_mem[OF sextet_bounds(4)[OF bd bd]]
    by auto
next
  case (3 a b)
  note bd = of_char_lt_256
  from 3 show ?case
    using b64_char_mem[OF sextet_bounds(1)[OF bd bd]] b64_char_mem[OF sextet_bounds(2)[OF bd bd]]
      b64_char_mem[OF sextet_bounds(6)[OF bd bd]]
    by auto
next
  case (2 a)
  note bd = of_char_lt_256
  from 2 show ?case
    using b64_char_mem[OF sextet_bounds(1)[OF bd bd]] b64_char_mem[OF sextet_bounds(5)[OF bd bd]]
    by auto
qed simp

lemma b64_body_no_pad: "CHR ''='' \<notin> set (b64_body xs)"
  using b64_body_chars b64_alphabet_chars by blast

lemma b64_body_ascii: "is_ascii (b64_body xs)"
  unfolding is_ascii_def list_all_iff
  using b64_body_chars b64_alphabet_chars by blast

lemma urlsafe_b64encode_body:
  "\<exists>k. urlsafe_b64encode xs = b64_body xs @ replicate k (CHR ''='')"
proof (induction xs rule: urlsafe_b64encode.induct)
  case 1
  show ?case by simp
next
  case (2 a)
  show ?case by (rule exI[of _ "Suc (Suc 0)"]) simp
next
  case (3 a b)
  show ?case by (rule exI[of _ "Suc 0"]) simp
next
  case (4 a b c rest)
  then obtain k where "urlsafe_b64encode rest = b64_body rest @ replicate k (CHR ''='')"
    by blast
  then show ?case by (intro exI[of _ k]) simp
qed

lemma rstrip_padding:
  assumes "c \<notin> set s"
  shows "rstrip (s @ replicate k c) [c] = s"
proof -
  have "dropWhile (\<lambda>x. x = c) (replicate k c @ rev s) = dropWhile (\<lambda>x. x = c) (rev s)"
    by (induction k) simp_all
  also have "\<dots> = rev s"
  proof -
    have "c \<notin> set (rev s)" using assms by simp
    then show ?thesis by (cases "rev s") auto
  qed
  finally show ?thesis by (simp add: rstrip_def)
qed

lemma rstrip_urlsafe_b64encode: "rstrip (urlsafe_b64encode xs) ''='' = b64_body xs"
proof -
  obtain k where "urlsafe_b64encode xs = b64_body xs @ replicate k (CHR ''='')"
    using urlsafe_b64encode_body by blast
  then show ?thesis
    by (simp only: rstrip_padding[OF b64_body_no_pad])
qed

section \<open>Tokens: candidates and verification\<close>

lemma candidate_body:
  "candidate H S mid a ts = b64_body (H S (mid @ '':'' @ a @ '':'' @ str_int ts))"
  by (simp only: candidate_def rstrip_urlsafe_b64encode)

lemma candidate_ascii: "is_ascii (candidate H S mid a ts)"
  by (simp only: candidate_body b64_body_ascii)

lemma compare_digest_candidate:
  "is_ascii token \<Longrightarrow> compare_digest (candidate H S mid a ts) token = Inr (candidate H S mid a ts = token)"
  by (simp add: compare_digest_def candidate_ascii)

lemma verify_loop_Cons:
  "verify_loop H S mid a token (ts # rest) =
     (case compare_digest (candidate H S mid a ts) token of
        Inl e \<Rightarrow> Inl e
      | Inr True \<Rightarrow> Inr True
      | Inr False \<Rightarrow> verify_loop H S mid a token rest)"
  by (simp add: candidate_def Let_def)

lemma verify_token_ascii:
  assumes "is_ascii token"
  shows "verify_token H S mid a token c =
    Inr (token = candidate H S mid a (c div TOKEN_WINDOW_SECONDS) \<or>
         token = candidate H S mid a (c div TOKEN_WINDOW_SECONDS - 1))"
  unfolding verify_token_def Let_def verify_loop_Cons compare_digest_candidate[OF assms]
  by (auto simp del: verify_loop.simps simp add: verify_loop.simps(1) split: bool.splits)

lemma generate_token_ok:
  "a = ''IN'' \<or> a = ''OUT'' \<Longrightarrow>
   generate_token H S mid a now c =
     Inr (candidate H S mid a ((case now of Some n \<Rightarrow> n | None \<Rightarrow> c) div TOKEN_WINDOW_SECONDS))"
  by (auto simp add: generate_token_def candidate_def Let_def)

section \<open>Messages and the instantiating MAC\<close>








section \<open>Claims about the token scheme\<close>

lemma window_index_near:
  fixes t t' :: int
  assumes "t \<le> t'" "t' < t + 10"
  shows "t' div 10 = t div 10 \<or> t' div 10 - 1 = t div 10"
  using assms by arith

text \<open>
  Claim C1 (round-trip validity). For every member identifier and every action in
  \<open>IN\<close>, \<open>OUT\<close>, the token that \<open>generate_token\<close> produces at time \<open>t\<close> (the
  argument \<open>now\<close>, or the clock when \<open>now\<close> is absent) verifies true for the same
  member, action and secret at every verification time \<open>t'\<close> with
  \<open>t \<le> t' < t + TOKEN_WINDOW_SECONDS\<close>. Times are whole unix seconds.
\<close>

theorem generate_verify_roundtrip:
  assumes "a = ''IN'' \<or> a = ''OUT''"
    and "t = (case now of Some n \<Rightarrow> n | None \<Rightarrow> c)"
    and "t \<le> t'" and "t' < t + TOKEN_WINDOW_SECONDS"
  shows "\<exists>token. generate_token H S mid a now c = Inr token \<and>
           verify_token H S mid a token t' = Inr True"
proof -
  let ?tok = "candidate H S mid a (t div TOKEN_WINDOW_SECONDS)"
  have g: "generate_token H S mid a now c = Inr ?tok"
    using generate_token_ok[OF assms(1)] assms(2) by simp
  have idx: "t' div TOKEN_WINDOW_SECONDS = t div TOKEN_WINDOW_SECONDS \<or>
      t' div TOKEN_WINDOW_SECONDS - 1 = t div TOKEN_WINDOW_SECONDS"
    using window_index_near[of t t'] assms(3,4) by (simp add: TOKEN_WINDOW_SECONDS_def)
  have "verify_token H S mid a ?tok t' = Inr True"
    using idx by (auto simp add: verify_token_ascii[OF candidate_ascii])
  with g show ?thesis by blast
qed

theorem generate_verify_roundtrip_witness:
  "(1000::int) \<le> 1005 \<and> (1005::int) < 1000 + TOKEN_WINDOW_SECONDS \<and>
   (\<exists>token. generate_token keyed_concat ''dev-secret'' ''m1'' ''IN'' (Some 1000) 0 = Inr token \<and>
      verify_token keyed_concat ''dev-secret'' ''m1'' ''IN'' token 1005 = Inr True)"
  using generate_verify_roundtrip[where a = "''IN''" and t = 1000 and now = "Some 1000"
      and c = 0 and t' = 1005 and H = keyed_concat and S = "''dev-secret''" and mid = "''m1''"]
  by (simp add: TOKEN_WINDOW_SECONDS_def)


text \<open>
  Claim C7 (totality of verify on malformed input). The claim fails on a token that
  is not ASCII-only: on the two bytes of a lower-case e with acute accent,
  \<open>hmac.compare_digest\<close> raises \<open>TypeError\<close> and \<open>verify_token\<close> lets it
  through, for every member, action, secret and time. (On an ASCII-only token
  \<open>verify_token\<close> returns whether the token is one of the two candidates: lemma
  \<open>verify_token_ascii\<close>.)
\<close>

theorem verify_token_non_ascii_raises:
  "verify_token H S mid a [CHR 0xC3, CHR 0xA9] c = Inl TypeError"
  by (simp add: verify_token_def verify_loop_Cons compare_digest_def is_ascii_def Let_def
      del: verify_loop.simps)





section \<open>The store and the endpoints\<close>

lemma verify_token_candidate:
  "verify_token H S mid a (candidate H S mid a (c div TOKEN_WINDOW_SECONDS)) c = Inr True"
  by (simp add: verify_token_ascii[OF candidate_ascii])

lemma scan2_verified:
  assumes "a = ''IN'' \<or> a = ''OUT''" and "verify_token H S mid a tok c = Inr True"
  shows "scan2 H S (Some d) mid a tok c now =
    (case oid mid of
       Inl e \<Rightarrow>
         (Inl e, Some (d\<lparr>attendances := attendances d @
            [\<lparr>att_member_id = mid, att_action = a, att_timestamp = now,
              att_created_at = now, att_updated_at = now\<rparr>]\<rparr>))
     | Inr i \<Rightarrow>
         (Inr ''ok'',
          Some \<lparr>members = update_one (members d) i
                   (if a = ''IN''
                    then (\<lambda>m. m\<lparr>updated_at := now, present := True, last_in := Some now\<rparr>)
                    else (\<lambda>m. m\<lparr>updated_at := now, present := False, last_out := Some now\<rparr>)),
                attendances = attendances d @
                  [\<lparr>att_member_id = mid, att_action = a, att_timestamp = now,
                    att_created_at = now, att_updated_at = now\<rparr>]\<rparr>))"
  using assms by (auto simp add: scan2_def Let_def split: sum.splits)

lemma oid_hex24: "oid ''0123456789abcdef01234567'' =
  Inr [0, 1, 2, 3, 4, 5, 6, 7, 8, 9, 10, 11, 12, 13, 14, 15, 0, 1, 2, 3, 4, 5, 6, 7]"
  by (simp add: oid_def ObjectId_def hex_digit_def)

lemma oid_m1: "oid ''m1'' = Inl (HTTPException 400 ''Invalid member id'')"
  by (simp add: oid_def ObjectId_def)








section \<open>Claims about the endpoints\<close>

text \<open>
  Claim C4 (accepted-scan effect). For a registered member (the identifier parses as
  an \<open>ObjectId\<close> and a member document has that \<open>_id\<close>), a \<open>scan2\<close> request with
  action \<open>IN\<close> or \<open>OUT\<close> and a token that verifies returns \<open>{"status": "ok"}\<close>,
  appends exactly one attendance document for the member, the action and \<open>now\<close> at
  the end of the log, whatever the member's presence was, and sets on the member
  \<open>present = True\<close> and \<open>last_in = now\<close> for \<open>IN\<close>, \<open>present = False\<close> and
  \<open>last_out = now\<close> for \<open>OUT\<close> (and \<open>updated_at = now\<close>). Nothing rejects an
  \<open>IN\<close> of a member who is present or an \<open>OUT\<close> of one who is absent: the
  member \<open>m\<close> is arbitrary.
\<close>

theorem accepted_scan_effect:
  assumes "a = ''IN'' \<or> a = ''OUT''"
    and "verify_token H S mid a tok c = Inr True"
    and "oid mid = Inr i"
    and "members d i = Some m"
  shows "scan2 H S (Some d) mid a tok c now =
    (Inr ''ok'',
     Some \<lparr>members = (members d)(i \<mapsto>
              (if a = ''IN''
               then m\<lparr>updated_at := now, present := True, last_in := Some now\<rparr>
               else m\<lparr>updated_at := now, present := False, last_out := Some now\<rparr>)),
           attendances = attendances d @
             [\<lparr>att_member_id = mid, att_action = a, att_timestamp = now,
               att_created_at = now, att_updated_at = now\<rparr>]\<rparr>)"
  using assms(3,4) by (simp add: scan2_verified[OF assms(1,2)] update_one_def)

theorem accepted_scan_effect_witness:
  "scan2 keyed_concat ''dev-secret''
     (Some \<lparr>members =
        [[0, 1, 2, 3, 4, 5, 6, 7, 8, 9, 10, 11, 12, 13, 14, 15, 0, 1, 2, 3, 4, 5, 6, 7] \<mapsto>
           \<lparr>name = ''Ada'', present = True, last_in = Some 900, last_out = None,
             created_at = 100, updated_at = 900\<rparr>],
        attendances = []\<rparr>)
     ''0123456789abcdef01234567'' ''IN''
     (candidate keyed_concat ''dev-secret'' ''0123456789abcdef01234567'' ''IN'' 100) 1000 1001 =
   (Inr ''ok'',
    Some \<lparr>members =
        [[0, 1, 2, 3, 4, 5, 6, 7, 8, 9, 10, 11, 12, 13, 14, 15, 0, 1, 2, 3, 4, 5, 6, 7] \<mapsto>
           \<lparr>name = ''Ada'', present = True, last_in = Some 1001, last_out = None,
             created_at = 100, updated_at = 1001\<rparr>],
        attendances =
          [\<lparr>att_member_id = ''0123456789abcdef01234567'', att_action = ''IN'',
            att_timestamp = 1001, att_created_at = 1001, att_updated_at = 1001\<rparr>]\<rparr>)"
proof -
  have v: "verify_token keyed_concat ''dev-secret'' ''0123456789abcdef01234567'' ''IN''
      (candidate keyed_concat ''dev-secret'' ''0123456789abcdef01234567'' ''IN'' 100) 1000 = Inr True"
    using verify_token_candidate[of keyed_concat "''dev-secret''" "''0123456789abcdef01234567''"
        "''IN''" 1000]
    by (simp add: TOKEN_WINDOW_SECONDS_def)
  have m: "members \<lparr>members =
        [[0, 1, 2, 3, 4, 5, 6, 7, 8, 9, 10, 11, 12, 13, 14, 15, 0, 1, 2, 3, 4, 5, 6, 7] \<mapsto>
           \<lparr>name = ''Ada'', present = True, last_in = Some 900, last_out = None,
             created_at = 100, updated_at = 900\<rparr>],
        attendances = []\<rparr>
      [0, 1, 2, 3, 4, 5, 6, 7, 8, 9, 10, 11, 12, 13, 14, 15, 0, 1, 2, 3, 4, 5, 6, 7] =
     Some \<lparr>name = ''Ada'', present = True, last_in = Some 900, last_out = None,
             created_at = 100, updated_at = 900\<rparr>"
    by simp
  show ?thesis
    using accepted_scan_effect[OF _ v oid_hex24 m, of 1001] by simp
qed

text \<open>
  Claim C5 (unknown member rejection). The claim fails: \<open>scan2\<close> never looks the
  member up. With no member in the store, a well-formed identifier and a token that
  verifies, for every MAC and secret, the request returns \<open>{"status": "ok"}\<close> and
  the attendance document is in the log afterwards; \<open>update_one\<close> matches nothing
  and raises nothing.
\<close>

theorem unregistered_member_scan_accepted:
  "scan2 H S (Some \<lparr>members = Map.empty, attendances = []\<rparr>)
     ''0123456789abcdef01234567'' ''IN''
     (candidate H S ''0123456789abcdef01234567'' ''IN'' 100) 1000 1001 =
   (Inr ''ok'',
    Some \<lparr>members = Map.empty,
          attendances =
            [\<lparr>att_member_id = ''0123456789abcdef01234567'', att_action = ''IN'',
              att_timestamp = 1001, att_created_at = 1001, att_updated_at = 1001\<rparr>]\<rparr>)"
proof -
  have v: "verify_token H S ''0123456789abcdef01234567'' ''IN''
      (candidate H S ''0123456789abcdef01234567'' ''IN'' 100) 1000 = Inr True"
    using verify_token_candidate[of H S "''0123456789abcdef01234567''" "''IN''" 1000]
    by (simp add: TOKEN_WINDOW_SECONDS_def)
  show ?thesis
    by (subst scan2_verified[OF _ v]) (simp_all add: oid_hex24 update_one_def)
qed

text \<open>
  Claim C6 (atomicity of the scan). The claim fails: the attendance document is
  inserted before \<open>oid(member_id)\<close> is evaluated. For the member identifier
  \<open>m1\<close>, which is not 24 hexadecimal digits, and a token that verifies, in every
  store, for every MAC and secret, the request raises
  \<open>HTTPException(400, "Invalid member id")\<close> and leaves the store with the
  attendance document appended and no member touched.
\<close>

theorem scan2_partial_commit:
  "scan2 H S (Some d) ''m1'' ''IN'' (candidate H S ''m1'' ''IN'' 100) 1000 1001 =
   (Inl (HTTPException 400 ''Invalid member id''),
    Some (d\<lparr>attendances := attendances d @
       [\<lparr>att_member_id = ''m1'', att_action = ''IN'', att_timestamp = 1001,
         att_created_at = 1001, att_updated_at = 1001\<rparr>]\<rparr>))"
proof -
  have v: "verify_token H S ''m1'' ''IN'' (candidate H S ''m1'' ''IN'' 100) 1000 = Inr True"
    using verify_token_candidate[of H S "''m1''" "''IN''" 1000]
    by (simp add: TOKEN_WINDOW_SECONDS_def)
  show ?thesis
    by (subst scan2_verified[OF _ v]) (simp_all add: oid_m1)
qed




text \<open>
  Claim C10 (frame condition of a scan). Whatever \<open>scan2\<close> returns, it changes no
  member document other than the one whose \<open>_id\<close> is \<open>oid(member_id)\<close>, it
  creates and deletes no member document, and on every member document it keeps
  \<open>name\<close> and \<open>created_at\<close>; with action \<open>IN\<close> it keeps \<open>last_out\<close>, with
  action \<open>OUT\<close> it keeps \<open>last_in\<close>. An accepted scan is the case where the
  result is \<open>{"status": "ok"}\<close>.
\<close>

theorem scan2_frame:
  assumes "scan2 H S (Some d) mid a tok c now = (res, Some d')"
  shows "(\<forall>j. oid mid \<noteq> Inr j \<longrightarrow> members d' j = members d j) \<and>
         (\<forall>j. members d j = None \<longrightarrow> members d' j = None) \<and>
         (\<forall>j m. members d j = Some m \<longrightarrow>
            (\<exists>m'. members d' j = Some m' \<and> name m' = name m \<and> created_at m' = created_at m \<and>
               (a = ''IN'' \<longrightarrow> last_out m' = last_out m) \<and>
               (a = ''OUT'' \<longrightarrow> last_in m' = last_in m)))"
proof -
  consider (unch) "members d' = members d"
    | (upd) i where "oid mid = Inr i" "a = ''IN''"
        "members d' = update_one (members d) i
           (\<lambda>m. m\<lparr>updated_at := now, present := True, last_in := Some now\<rparr>)"
    | (upd') i where "oid mid = Inr i" "a = ''OUT''"
        "members d' = update_one (members d) i
           (\<lambda>m. m\<lparr>updated_at := now, present := False, last_out := Some now\<rparr>)"
    using assms
    by (auto simp add: scan2_def Let_def split: sum.splits bool.splits if_splits)
  then show ?thesis
  proof cases
    case unch
    then show ?thesis by simp
  next
    case upd
    then show ?thesis by (auto simp add: update_one_def split: option.splits)
  next
    case upd'
    then show ?thesis by (auto simp add: update_one_def split: option.splits)
  qed
qed

theorem scan2_frame_witness:
  "\<exists>d'. scan2 keyed_concat ''dev-secret''
     (Some \<lparr>members =
        [[0, 1, 2, 3, 4, 5, 6, 7, 8, 9, 10, 11, 12, 13, 14, 15, 0, 1, 2, 3, 4, 5, 6, 7] \<mapsto>
           \<lparr>name = ''Ada'', present = True, last_in = Some 900, last_out = None,
             created_at = 100, updated_at = 900\<rparr>,
         [15, 14, 13, 12, 11, 10, 9, 8, 7, 6, 5, 4, 3, 2, 1, 0, 15, 14, 13, 12, 11, 10, 9, 8] \<mapsto>
           \<lparr>name = ''Bob'', present = False, last_in = Some 500, last_out = Some 600,
             created_at = 200, updated_at = 600\<rparr>],
        attendances = []\<rparr>)
     ''0123456789abcdef01234567'' ''OUT''
     (candidate keyed_concat ''dev-secret'' ''0123456789abcdef01234567'' ''OUT'' 100) 1000 1001 =
       (Inr ''ok'', Some d') \<and>
     members d' [15, 14, 13, 12, 11, 10, 9, 8, 7, 6, 5, 4, 3, 2, 1, 0, 15, 14, 13, 12, 11, 10, 9, 8] =
       Some \<lparr>name = ''Bob'', present = False, last_in = Some 500, last_out = Some 600,
             created_at = 200, updated_at = 600\<rparr> \<and>
     (\<exists>m'. members d' [0, 1, 2, 3, 4, 5, 6, 7, 8, 9, 10, 11, 12, 13, 14, 15, 0, 1, 2, 3, 4, 5, 6, 7] =
         Some m' \<and> name m' = ''Ada'' \<and> created_at m' = 100 \<and> last_in m' = Some 900)"
proof -
  let ?i = "[0, 1, 2, 3, 4, 5, 6, 7, 8, 9, 10, 11, 12, 13, 14, 15, 0, 1, 2, 3, 4, 5, 6, 7] :: nat list"
  let ?j = "[15, 14, 13, 12, 11, 10, 9, 8, 7, 6, 5, 4, 3, 2, 1, 0, 15, 14, 13, 12, 11, 10, 9, 8] :: nat list"
  let ?ada = "\<lparr>name = ''Ada'', present = True, last_in = Some 900, last_out = None,
             created_at = 100, updated_at = 900\<rparr>"
  let ?bob = "\<lparr>name = ''Bob'', present = False, last_in = Some 500, last_out = Some 600,
             created_at = 200, updated_at = 600\<rparr>"
  let ?d = "\<lparr>members = [?i \<mapsto> ?ada, ?j \<mapsto> ?bob], attendances = []\<rparr>"
  let ?tok = "candidate keyed_concat ''dev-secret'' ''0123456789abcdef01234567'' ''OUT'' 100"
  have v: "verify_token keyed_concat ''dev-secret'' ''0123456789abcdef01234567'' ''OUT''
      ?tok 1000 = Inr True"
    using verify_token_candidate[of keyed_concat "''dev-secret''" "''0123456789abcdef01234567''"
        "''OUT''" 1000]
    by (simp add: TOKEN_WINDOW_SECONDS_def)
  have "\<exists>d'. scan2 keyed_concat ''dev-secret'' (Some ?d) ''0123456789abcdef01234567'' ''OUT''
      ?tok 1000 1001 = (Inr ''ok'', Some d')"
    by (subst scan2_verified[OF _ v]) (simp_all add: oid_hex24)
  then obtain d' where e: "scan2 keyed_concat ''dev-secret'' (Some ?d)
      ''0123456789abcdef01234567'' ''OUT'' ?tok 1000 1001 = (Inr ''ok'', Some d')" ..
  note f = scan2_frame[OF e]
  have "oid ''0123456789abcdef01234567'' \<noteq> Inr ?j"
    by (simp add: oid_hex24)
  with f have b: "members d' ?j = Some ?bob"
    by simp
  have "members ?d ?i = Some ?ada"
    by simp
  with f have "\<exists>m'. members d' ?i = Some m' \<and> name m' = name ?ada \<and>
      created_at m' = created_at ?ada \<and>
      (''OUT'' = ''IN'' \<longrightarrow> last_out m' = last_out ?ada) \<and>
      (''OUT'' = ''OUT'' \<longrightarrow> last_in m' = last_in ?ada)"
    by blast
  then have a: "\<exists>m'. members d' ?i = Some m' \<and> name m' = ''Ada'' \<and> created_at m' = 100 \<and>
      last_in m' = Some 900"
    by simp
  from e b a show ?thesis by blast
qed

end
